theory Spec2Isabelle
  imports Main "HOL-Library.Word" "HOL-Library.Monad_Syntax"
begin

unbundle bit_operations_syntax

section \<open>Vector spine protocol: data model\<close>

text \<open>
  The development embeds \<^verbatim>\<open>src/spine.h\<close>, \<^verbatim>\<open>src/spine.cpp\<close> and
  \<^verbatim>\<open>src/listener.cpp\<close>.  Bytes are 8-bit words.  \<^verbatim>\<open>size_t\<close> is the unsigned
  32-bit type of the ESP32 target; it is modelled as a natural number and the one
  conversion that can wrap (a negative \<^verbatim>\<open>int\<close> converted to \<^verbatim>\<open>size_t\<close>) is written
  out.  \<^verbatim>\<open>enum class MessageType\<close> has the underlying type \<^verbatim>\<open>int\<close>; a value of
  it is modelled by that integer, so that the sentinel \<^verbatim>\<open>(MessageType)-1\<close> and every
  16-bit code read from the wire are values of the type.
\<close>

type_synonym byte = "8 word"
type_synonym size_t = nat
type_synonym MessageType = int

definition int_to_size_t :: "int \<Rightarrow> size_t" where
  "int_to_size_t i = nat (i mod 2 ^ 32)"

subsection \<open>Constants of \<^verbatim>\<open>spine.cpp\<close> and \<^verbatim>\<open>spine.h\<close>\<close>

definition sync :: byte where "sync = 0xAA"
definition message_type_ofs :: nat where "message_type_ofs = 4"
definition payload_size_ofs :: nat where "payload_size_ofs = 6"
definition payload_ofs :: nat where "payload_ofs = 8"

definition dataCharacter :: MessageType where "dataCharacter = 0x6364"
definition dataFrame :: MessageType where "dataFrame = 0x6466"
definition shutdown :: MessageType where "shutdown = 0x6473"
definition updateFirmware :: MessageType where "updateFirmware = 0x6675"
definition mode :: MessageType where "mode = 0x6D64"
definition version :: MessageType where "version = 0x7276"
definition lights :: MessageType where "lights = 0x736C"
definition validate :: MessageType where "validate = 0x7374"
definition erase :: MessageType where "erase = 0x7878"
definition bootFrame :: MessageType where "bootFrame = 0x6662"
definition ack :: MessageType where "ack = 0x6B61"
definition VS :: MessageType where "VS = 0x7376"

text \<open>The sentinel \<^verbatim>\<open>(MessageType)-1\<close> returned by a failed receive.\<close>

definition invalid :: MessageType where "invalid = - 1"

subsection \<open>The two directions\<close>

text \<open>
  The namespaces \<^verbatim>\<open>H2B\<close> and \<^verbatim>\<open>B2H\<close> hold the same functions, which differ in the
  three tag bytes after the sync byte and in the size table only.  The embedding
  takes the namespace as a parameter.
\<close>

datatype direction = H2B | B2H

fun tag1 :: "direction \<Rightarrow> byte" where
  "tag1 H2B = 0x48"
| "tag1 B2H = 0x42"

fun tag2 :: "direction \<Rightarrow> byte" where
  "tag2 H2B = 0x32"
| "tag2 B2H = 0x32"

fun tag3 :: "direction \<Rightarrow> byte" where
  "tag3 H2B = 0x42"
| "tag3 B2H = 0x48"

text \<open>\<^verbatim>\<open>H2B::size\<close> and \<^verbatim>\<open>B2H::size\<close>: the \<^verbatim>\<open>switch\<close> with its \<^verbatim>\<open>default: return -1\<close>.\<close>

definition H2B_size :: "MessageType \<Rightarrow> int" where
  "H2B_size command =
    (if command = dataCharacter then 32
     else if command = dataFrame then 64
     else if command = shutdown then 0
     else if command = updateFirmware then 1028
     else if command = mode then 0
     else if command = version then 0
     else if command = lights then 16
     else if command = validate then 0
     else if command = erase then 0
     else - 1)"

definition B2H_size :: "MessageType \<Rightarrow> int" where
  "B2H_size command =
    (if command = dataCharacter then 32
     else if command = updateFirmware then 32
     else if command = dataFrame then 768
     else if command = bootFrame then 0
     else if command = ack then 4
     else if command = version then 40
     else if command = validate then 0
     else - 1)"

fun msg_size :: "direction \<Rightarrow> MessageType \<Rightarrow> int" where
  "msg_size H2B command = H2B_size command"
| "msg_size B2H command = B2H_size command"

subsection \<open>Memory\<close>

text \<open>
  A buffer is the list of its bytes; \<^verbatim>\<open>recv_buffer\<close> is declared with
  \<^verbatim>\<open>1028+payload_ofs+4\<close> bytes.  An access that leaves the array is undefined in
  C++; the embedding makes it the result \<open>None\<close>, which every function passes on.
\<close>

definition recv_buffer_size :: nat where
  "recv_buffer_size = 1028 + payload_ofs + 4"

definition peek :: "byte list \<Rightarrow> nat \<Rightarrow> nat \<Rightarrow> byte list option" where
  "peek mem ofs n = (if ofs + n \<le> length mem then Some (take n (drop ofs mem)) else None)"

definition poke :: "byte list \<Rightarrow> nat \<Rightarrow> byte list \<Rightarrow> byte list option" where
  "poke mem ofs bs =
    (if ofs + length bs \<le> length mem
     then Some (take ofs mem @ bs @ drop (ofs + length bs) mem) else None)"

text \<open>Little-endian 16- and 32-bit accesses through a cast pointer.\<close>

definition uint16_at :: "byte list \<Rightarrow> nat \<Rightarrow> 16 word option" where
  "uint16_at mem ofs =
    (if ofs + 2 \<le> length mem
     then Some (word_of_nat (unat (mem ! ofs) + 256 * unat (mem ! (ofs + 1)))) else None)"

definition uint32_at :: "byte list \<Rightarrow> nat \<Rightarrow> 32 word option" where
  "uint32_at mem ofs =
    (if ofs + 4 \<le> length mem
     then Some (word_of_nat (unat (mem ! ofs) + 256 * unat (mem ! (ofs + 1))
                 + 65536 * unat (mem ! (ofs + 2)) + 16777216 * unat (mem ! (ofs + 3))))
     else None)"

definition uint16_bytes :: "16 word \<Rightarrow> byte list" where
  "uint16_bytes w = [ucast w, ucast (drop_bit 8 w)]"

definition uint32_bytes :: "32 word \<Rightarrow> byte list" where
  "uint32_bytes w = [ucast w, ucast (drop_bit 8 w), ucast (drop_bit 16 w), ucast (drop_bit 24 w)]"

subsection \<open>Streams\<close>

text \<open>
  \<^verbatim>\<open>Stream\<close> is only declared in the repository; its one implementation there is
  \<^verbatim>\<open>MockStream\<close> of \<^verbatim>\<open>tests/mockStream.cpp\<close>, which the embedding follows: a
  vector of bytes and a read index.  \<^verbatim>\<open>read\<close> returns -1 at the end of the data,
  \<^verbatim>\<open>readBytes\<close> stops copying there.
\<close>

record MockStream =
  buffer :: "byte list"
  readIndex :: nat

definition Stream_write :: "byte list \<Rightarrow> MockStream \<Rightarrow> MockStream" where
  "Stream_write data s = s\<lparr>buffer := buffer s @ data\<rparr>"

definition read :: "MockStream \<Rightarrow> int \<times> MockStream" where
  "read s =
    (if readIndex s < length (buffer s)
     then (uint (buffer s ! readIndex s), s\<lparr>readIndex := readIndex s + 1\<rparr>)
     else (- 1, s))"

text \<open>
  \<^verbatim>\<open>readBytes(outBuffer, size)\<close>: the loop
  \<^verbatim>\<open>for (i = 0; i < size && readIndex < buffer.size(); ++i) outBuffer[i] = buffer[readIndex++]\<close>,
  by recursion on the number of rounds left; \<open>ofs\<close> is the place of \<^verbatim>\<open>outBuffer[i]\<close>
  in the destination array.
\<close>

fun readBytes :: "byte list \<Rightarrow> nat \<Rightarrow> nat \<Rightarrow> MockStream \<Rightarrow> (byte list \<times> MockStream) option" where
  "readBytes mem ofs 0 s = Some (mem, s)"
| "readBytes mem ofs (Suc n) s =
    (if readIndex s < length (buffer s)
     then do {
       mem' \<leftarrow> poke mem ofs [buffer s ! readIndex s];
       readBytes mem' (ofs + 1) n (s\<lparr>readIndex := readIndex s + 1\<rparr>)
     }
     else Some (mem, s))"

text \<open>
  Two notions for stating properties: the bytes of a stream that have not been read
  yet, and a stream after \<open>k\<close> more bytes have been read.
\<close>

definition unread :: "MockStream \<Rightarrow> byte list" where
  "unread s = drop (readIndex s) (buffer s)"

definition advance :: "nat \<Rightarrow> MockStream \<Rightarrow> MockStream" where
  "advance k s = s\<lparr>readIndex := readIndex s + k\<rparr>"

subsection \<open>CRC32\<close>

text \<open>
  Modelled from the spec: \<^verbatim>\<open>crc32_le\<close> is the ROM routine of
  \<^verbatim>\<open>esp32/rom/crc.h\<close>, which is not part of the repository.  The specification
  describes it as the reflected CRC32 with the IEEE polynomial, whose register starts
  at the value passed (the callers pass \<^verbatim>\<open>~0\<close>, that is 0xFFFFFFFF) and is
  returned without a final XOR.
\<close>

definition crc32_bit :: "32 word \<Rightarrow> 32 word" where
  "crc32_bit c = (if bit c 0 then drop_bit 1 c XOR 0xEDB88320 else drop_bit 1 c)"

definition crc32_byte :: "32 word \<Rightarrow> byte \<Rightarrow> 32 word" where
  "crc32_byte c b = (crc32_bit ^^ 8) (c XOR ucast b)"

definition crc32_le :: "32 word \<Rightarrow> byte list \<Rightarrow> 32 word" where
  "crc32_le crc buf = foldl crc32_byte crc buf"

text \<open>The call \<^verbatim>\<open>crc32(seed, mem + ofs, len)\<close>.\<close>

definition crc32 :: "32 word \<Rightarrow> byte list \<Rightarrow> nat \<Rightarrow> nat \<Rightarrow> 32 word option" where
  "crc32 seed mem ofs len = map_option (crc32_le seed) (peek mem ofs len)"

section \<open>The channel operations of \<^verbatim>\<open>spine.cpp\<close>\<close>

text \<open>
  \<^verbatim>\<open>populateHeader(buffer, message_type)\<close>.  The result is the returned
  \<^verbatim>\<open>size_t\<close> and the buffer.
\<close>

definition populateHeader :: "direction \<Rightarrow> byte list \<Rightarrow> MessageType \<Rightarrow> (size_t \<times> byte list) option" where
  "populateHeader d buf message_type = do {
     buf \<leftarrow> poke buf 0 [0xAA];
     buf \<leftarrow> poke buf 1 [tag1 d];
     buf \<leftarrow> poke buf 2 [tag2 d];
     buf \<leftarrow> poke buf 3 [tag3 d];
     buf \<leftarrow> poke buf message_type_ofs (uint16_bytes (word_of_int message_type));
     let payload_size = int_to_size_t (msg_size d message_type);
     buf \<leftarrow> poke buf payload_size_ofs (uint16_bytes (word_of_nat payload_size));
     Some (payload_size, buf)
   }"

text \<open>
  The macro \<^verbatim>\<open>waitFor(c)\<close>: one byte is read and stored at \<^verbatim>\<open>recv_buffer[offset]\<close>
  (the \<^verbatim>\<open>int\<close> that \<^verbatim>\<open>read\<close> returns is converted to a byte).  The first component
  of the result tells whether the stored byte is \<open>c\<close>; when it is not, the macro
  returns \<^verbatim>\<open>(MessageType)-1\<close> from the function that uses it, and \<^verbatim>\<open>offset\<close> is
  not advanced.
\<close>

definition waitFor ::
  "byte \<Rightarrow> byte list \<Rightarrow> nat \<Rightarrow> MockStream \<Rightarrow> (bool \<times> byte list \<times> nat \<times> MockStream) option" where
  "waitFor c recv_buffer offset inp =
    (case read inp of (v, inp') \<Rightarrow> do {
       recv_buffer' \<leftarrow> poke recv_buffer offset [word_of_int v];
       Some (word_of_int v = c, recv_buffer',
             if word_of_int v = c then offset + 1 else offset, inp')
     })"

text \<open>
  \<^verbatim>\<open>ReceiveMessage(in, payload_size)\<close>.  The arguments are the channel's
  \<^verbatim>\<open>recv_buffer\<close>, the stream and the value the caller's \<^verbatim>\<open>payload_size\<close>
  variable holds on entry; the result is the returned type, the value of
  \<^verbatim>\<open>payload_size\<close> on return, the buffer and the stream.
\<close>

definition ReceiveMessage ::
  "direction \<Rightarrow> byte list \<Rightarrow> MockStream \<Rightarrow> size_t
     \<Rightarrow> (MessageType \<times> size_t \<times> byte list \<times> MockStream) option" where
  "ReceiveMessage d recv_buffer inp payload_size = do {
     (ok, recv_buffer, offset, inp) \<leftarrow> waitFor sync recv_buffer 0 inp;
     if \<not> ok then Some (invalid, payload_size, recv_buffer, inp) else do {
     (ok, recv_buffer, offset, inp) \<leftarrow> waitFor (tag1 d) recv_buffer offset inp;
     if \<not> ok then Some (invalid, payload_size, recv_buffer, inp) else do {
     (ok, recv_buffer, offset, inp) \<leftarrow> waitFor (tag2 d) recv_buffer offset inp;
     if \<not> ok then Some (invalid, payload_size, recv_buffer, inp) else do {
     (ok, recv_buffer, offset, inp) \<leftarrow> waitFor (tag3 d) recv_buffer offset inp;
     if \<not> ok then Some (invalid, payload_size, recv_buffer, inp) else do {
     (recv_buffer, inp) \<leftarrow> readBytes recv_buffer message_type_ofs 4 inp;
     t \<leftarrow> uint16_at recv_buffer message_type_ofs;
     let message_type = uint t;
     s \<leftarrow> uint16_at recv_buffer payload_size_ofs;
     let payload_size = unat s;
     let expected_size = msg_size d message_type;
     if expected_size < 0 \<or> int_to_size_t expected_size \<noteq> payload_size
     then Some (invalid, 0, recv_buffer, inp)
     else do {
       (recv_buffer, inp) \<leftarrow> readBytes recv_buffer payload_ofs (payload_size + 4) inp;
       crc \<leftarrow> crc32 0xFFFFFFFF recv_buffer payload_ofs payload_size;
       crc_in_buffer \<leftarrow> uint32_at recv_buffer (payload_ofs + payload_size + 4);
       if crc \<noteq> crc_in_buffer
       then Some (invalid, 0, recv_buffer, inp)
       else Some (message_type, payload_size, recv_buffer, inp)
     } } } } }
   }"

text \<open>
  \<^verbatim>\<open>SendMessage(out, payload_size)\<close> writes the first
  \<^verbatim>\<open>payload_size+payload_ofs+4\<close> bytes of the buffer.
\<close>

definition SendMessage :: "byte list \<Rightarrow> MockStream \<Rightarrow> size_t \<Rightarrow> MockStream option" where
  "SendMessage recv_buffer out payload_size = do {
     bytes \<leftarrow> peek recv_buffer 0 (payload_size + payload_ofs + 4);
     Some (Stream_write bytes out)
   }"

text \<open>
  \<^verbatim>\<open>DataCharacterMsg(text, numBytes)\<close>.  \<open>str\<close> is the array \<^verbatim>\<open>text\<close> points
  to.  \<^verbatim>\<open>memcpy\<close> with a negative count (converted to a huge \<^verbatim>\<open>size_t\<close>) or
  with a count beyond the source array is undefined, hence \<open>None\<close>.
\<close>

definition DataCharacterMsg ::
  "direction \<Rightarrow> byte list \<Rightarrow> byte list \<Rightarrow> int \<Rightarrow> (size_t \<times> byte list) option" where
  "DataCharacterMsg d recv_buffer str numBytes = do {
     (_, recv_buffer) \<leftarrow> populateHeader d recv_buffer dataCharacter;
     let numBytes = min numBytes 31;
     if numBytes < 0 \<or> length str < nat numBytes then None else do {
     recv_buffer \<leftarrow> poke recv_buffer payload_ofs (take (nat numBytes) str);
     recv_buffer \<leftarrow> poke recv_buffer (payload_ofs + nat numBytes) [0];
     let payload_size = msg_size d dataCharacter;
     crc \<leftarrow> crc32 0xFFFFFFFF recv_buffer payload_ofs (nat payload_size);
     recv_buffer \<leftarrow> poke recv_buffer (payload_ofs + nat payload_size + 4) (uint32_bytes crc);
     Some (int_to_size_t payload_size, recv_buffer)
     }
   }"

section \<open>The relay of \<^verbatim>\<open>listener.cpp\<close>\<close>

text \<open>
  The hooks \<^verbatim>\<open>process(Ack&)\<close>, \<^verbatim>\<open>process(DataCharacter&)\<close> and
  \<^verbatim>\<open>process(B2HDataFrame&)\<close> get a reference to a structure that overlays the
  payload.  A hook is modelled as a function of the bytes of that structure and of
  the global \<^verbatim>\<open>Serial\<close>; it returns its \<^verbatim>\<open>bool\<close>, the bytes it leaves in the
  structure, and \<^verbatim>\<open>Serial\<close>.
\<close>

definition process_Ack :: "byte list \<Rightarrow> MockStream \<Rightarrow> bool \<times> byte list \<times> MockStream" where
  "process_Ack v Serial = (False, v, Serial)"

text \<open>
  The loop \<^verbatim>\<open>for (idx = 0; idx < 32 && value.text[idx] != 0; idx++) Serial.write(value.text[idx])\<close>.
\<close>

function print_text :: "byte list \<Rightarrow> nat \<Rightarrow> MockStream \<Rightarrow> MockStream" where
  "print_text str idx Serial =
    (if idx < 32 \<and> str ! idx \<noteq> 0
     then print_text str (idx + 1) (Stream_write [str ! idx] Serial)
     else Serial)"
  by pat_completeness auto
termination
  by (relation "measure (\<lambda>(str, idx, Serial). 32 - idx)") auto

declare print_text.simps [simp del]

definition process_DataCharacter :: "byte list \<Rightarrow> MockStream \<Rightarrow> bool \<times> byte list \<times> MockStream" where
  "process_DataCharacter v Serial = (False, v, print_text v 0 Serial)"

definition process_B2HDataFrame :: "byte list \<Rightarrow> MockStream \<Rightarrow> bool \<times> byte list \<times> MockStream" where
  "process_B2HDataFrame frame Serial = (False, frame, Serial)"

text \<open>
  The call \<^verbatim>\<open>process(((T*)(B2H::recv_buffer+payload_ofs))[0])\<close> for a structure
  \<^verbatim>\<open>T\<close> of \<open>n\<close> bytes: the hook works on the \<open>n\<close> bytes at \<^verbatim>\<open>payload_ofs\<close>,
  and what it leaves in the structure is in the buffer.
\<close>

definition on_payload ::
  "nat \<Rightarrow> (byte list \<Rightarrow> MockStream \<Rightarrow> bool \<times> byte list \<times> MockStream)
     \<Rightarrow> byte list \<Rightarrow> MockStream \<Rightarrow> (bool \<times> byte list \<times> MockStream) option" where
  "on_payload n hook recv_buffer Serial = do {
     v \<leftarrow> peek recv_buffer payload_ofs n;
     (case hook v Serial of (modified, v', Serial') \<Rightarrow> do {
        recv_buffer' \<leftarrow> poke recv_buffer payload_ofs v';
        Some (modified, recv_buffer', Serial')
      })
   }"

text \<open>
  \<^verbatim>\<open>processBody2Head(msg_type)\<close> on the \<^verbatim>\<open>B2H\<close> buffer; the structures have 4,
  32 and 768 bytes (\<^verbatim>\<open>static_assert\<close>s of \<^verbatim>\<open>spine.h\<close>).
\<close>

definition processBody2Head ::
  "MessageType \<Rightarrow> byte list \<Rightarrow> MockStream \<Rightarrow> (bool \<times> byte list \<times> MockStream) option" where
  "processBody2Head msg_type recv_buffer Serial =
    (if msg_type = ack then on_payload 4 process_Ack recv_buffer Serial
     else if msg_type = dataCharacter then on_payload 32 process_DataCharacter recv_buffer Serial
     else if msg_type = dataFrame then on_payload 768 process_B2HDataFrame recv_buffer Serial
     else Some (False, recv_buffer, Serial))"

text \<open>
  \<^verbatim>\<open>ReceiveAndRewriteB2HMessage(in, out)\<close>.  The state is the \<^verbatim>\<open>B2H\<close> buffer,
  \<^verbatim>\<open>Serial\<close> and the two streams.
\<close>

definition ReceiveAndRewriteB2HMessage ::
  "byte list \<Rightarrow> MockStream \<Rightarrow> MockStream \<Rightarrow> MockStream
     \<Rightarrow> (byte list \<times> MockStream \<times> MockStream \<times> MockStream) option" where
  "ReceiveAndRewriteB2HMessage recv_buffer Serial inp out = do {
     (msg_type, payload_size, recv_buffer, inp) \<leftarrow> ReceiveMessage B2H recv_buffer inp 0;
     (_, recv_buffer, Serial) \<leftarrow> processBody2Head msg_type recv_buffer Serial;
     crc \<leftarrow> crc32 0xFFFFFFFF recv_buffer payload_ofs payload_size;
     recv_buffer \<leftarrow> poke recv_buffer (payload_ofs + payload_size + 4) (uint32_bytes crc);
     bytes \<leftarrow> peek recv_buffer 0 (payload_size + payload_ofs + 4);
     Some (recv_buffer, Serial, inp, Stream_write bytes out)
   }"

section \<open>The wire format, for stating properties\<close>

text \<open>
  The eight header bytes of a frame of direction \<open>d\<close> with the 16-bit type code \<open>t\<close>
  and the 16-bit size field \<open>s\<close>, and the zero-initialised \<^verbatim>\<open>recv_buffer\<close> a program
  starts with.
\<close>

definition header :: "direction \<Rightarrow> 16 word \<Rightarrow> 16 word \<Rightarrow> byte list" where
  "header d t s = [sync, tag1 d, tag2 d, tag3 d] @ uint16_bytes t @ uint16_bytes s"

definition fresh_buffer :: "byte list" where
  "fresh_buffer = replicate recv_buffer_size 0"

definition stream_of :: "byte list \<Rightarrow> MockStream" where
  "stream_of bs = \<lparr>buffer = bs, readIndex = 0\<rparr>"

text \<open>
  A buffer that is zero but for the 32-bit word \<open>w\<close> at the place where
  \<^verbatim>\<open>ReceiveMessage\<close> reads \<^verbatim>\<open>crc_in_buffer\<close> for a payload of \<open>n\<close> bytes.  Such
  bytes are left there by an earlier, longer frame or by \<^verbatim>\<open>DataCharacterMsg\<close>.
\<close>

definition buffer_with_word :: "nat \<Rightarrow> 32 word \<Rightarrow> byte list" where
  "buffer_with_word n w =
     take (payload_ofs + n + 4) fresh_buffer @ uint32_bytes w
       @ drop (payload_ofs + n + 4 + 4) fresh_buffer"

text \<open>The payload that an encoder leaves in the buffer it returns.\<close>

definition payload_of :: "(size_t \<times> byte list) option \<Rightarrow> byte list option" where
  "payload_of r = map_option (\<lambda>(n, buf). take n (drop payload_ofs buf)) r"

text \<open>The texts \<^verbatim>\<open>"Hi"\<close> and \<^verbatim>\<open>"Hello"\<close> as C string literals.\<close>

definition Hi :: "byte list" where
  "Hi = [0x48, 0x69, 0]"

definition Hello :: "byte list" where
  "Hello = [0x48, 0x65, 0x6C, 0x6C, 0x6F, 0]"

text \<open>
  The buffer that \<^verbatim>\<open>B2H::DataCharacterMsg("Hello", 5)\<close> leaves when it starts from
  the zero-initialised buffer.
\<close>

definition buffer_after_Hello :: "byte list" where
  "buffer_after_Hello =
     header B2H 0x6364 32 @ (take 5 Hello @ replicate 27 0) @ replicate 4 0
       @ uint32_bytes (crc32_le 0xFFFFFFFF (take 5 Hello @ replicate 27 0))
       @ replicate 992 0"

section \<open>Basic facts about streams, memory and the codecs\<close>

lemmas MessageType_defs =
  dataCharacter_def dataFrame_def shutdown_def updateFirmware_def mode_def version_def
  lights_def validate_def erase_def bootFrame_def ack_def VS_def invalid_def

lemmas ofs_defs = message_type_ofs_def payload_size_ofs_def payload_ofs_def recv_buffer_size_def

lemma unread_advance: "unread (advance k s) = drop k (unread s)"
  by (simp add: unread_def advance_def add.commute)

lemma advance_advance: "advance j (advance k s) = advance (k + j) s"
  by (simp add: advance_def add.assoc)

lemma unread_Cons_index:
  assumes "unread s = b # bs"
  shows "readIndex s < length (buffer s)" and "buffer s ! readIndex s = b"
proof -
  show lt: "readIndex s < length (buffer s)"
    using assms by (cases "readIndex s < length (buffer s)") (simp_all add: unread_def)
  show "buffer s ! readIndex s = b"
    using assms lt by (metis unread_def hd_drop_conv_nth list.sel(1))
qed

lemma read_Cons: "unread s = b # bs \<Longrightarrow> read s = (uint b, advance 1 s)"
  using unread_Cons_index [of s b bs] by (simp add: read_def advance_def)

lemma read_Nil: "unread s = [] \<Longrightarrow> read s = (- 1, s)"
  by (simp add: read_def unread_def)

lemma poke_one: "ofs < length mem \<Longrightarrow> poke mem ofs [b] = Some (mem[ofs := b])"
  by (simp add: poke_def upd_conv_take_nth_drop)

lemma poke_peek: "ofs + n \<le> length mem \<Longrightarrow> poke mem ofs (take n (drop ofs mem)) = Some mem"
proof -
  assume le: "ofs + n \<le> length mem"
  have "take ofs mem @ take n (drop ofs mem) @ drop (ofs + n) mem = mem"
    by (metis append_take_drop_id drop_drop add.commute)
  with le show ?thesis by (simp add: poke_def min_absorb2)
qed

lemma readBytes_closed:
  "ofs + length (take n (unread s)) \<le> length mem \<Longrightarrow>
   readBytes mem ofs n s =
     Some (take ofs mem @ take n (unread s) @ drop (ofs + length (take n (unread s))) mem,
           advance (length (take n (unread s))) s)"
proof (induction n arbitrary: mem ofs s)
  case 0
  then show ?case by (simp add: advance_def)
next
  case (Suc n)
  show ?case
  proof (cases "unread s")
    case Nil
    then have "\<not> readIndex s < length (buffer s)" by (simp add: unread_def)
    with Nil show ?thesis by (simp add: advance_def)
  next
    case (Cons b bs)
    have un: "unread (advance 1 s) = bs" using Cons by (simp add: unread_advance)
    from Suc.prems Cons have len: "ofs + 1 + length (take n bs) \<le> length mem" by simp
    then have ofs: "ofs < length mem" by simp
    let ?mem' = "mem[ofs := b]"
    have IH: "readBytes ?mem' (ofs + 1) n (advance 1 s) =
      Some (take (ofs + 1) ?mem' @ take n bs @ drop (ofs + 1 + length (take n bs)) ?mem',
            advance (length (take n bs)) (advance 1 s))"
      using Suc.IH [of "ofs + 1" "advance 1 s" ?mem'] len un by simp
    have t: "take (ofs + 1) ?mem' = take ofs mem @ [b]"
      using ofs by (simp add: take_Suc_conv_app_nth)
    have d: "drop (ofs + 1 + length (take n bs)) ?mem' = drop (ofs + 1 + length (take n bs)) mem"
      by simp
    have step: "readBytes mem ofs (Suc n) s = readBytes ?mem' (ofs + 1) n (advance 1 s)"
      using unread_Cons_index [OF Cons] ofs by (simp add: poke_one advance_def)
    show ?thesis
      unfolding step IH t d Cons
      by (simp add: advance_advance)
  qed
qed

lemma readBytes_prefix:
  assumes "unread s = bs @ rest" and "length bs = n" and "ofs + n \<le> length mem"
  shows "readBytes mem ofs n s = Some (take ofs mem @ bs @ drop (ofs + n) mem, advance n s)"
  using readBytes_closed [of ofs n s mem] assms by simp

lemma uint16_roundtrip:
  "word_of_nat (unat (ucast (t::16 word) :: byte) + 256 * unat (ucast (drop_bit 8 t) :: byte)) = t"
proof -
  have "unat (ucast t :: byte) = unat t mod 256"
    by (simp add: unsigned_ucast_eq take_bit_eq_mod)
  moreover have "unat (ucast (drop_bit 8 t) :: byte) = unat t div 256"
    using unsigned_less [of t, where ?'a = nat]
    by (simp add: unsigned_ucast_eq take_bit_eq_mod unat_drop_bit_eq drop_bit_eq_div unat_div_distrib)
  ultimately show ?thesis by simp
qed

lemma length_uint32_bytes: "length (uint32_bytes w) = 4"
  by (simp add: uint32_bytes_def)

lemma length_header: "length (header d t s) = 8"
  by (simp add: header_def uint16_bytes_def)

lemma uint16_at_header_type:
  "uint16_at (header d t s @ xs) message_type_ofs = Some t"
  using uint16_roundtrip [of t]
  by (simp add: uint16_at_def header_def uint16_bytes_def message_type_ofs_def)

lemma uint16_at_header_size:
  "uint16_at (header d t s @ xs) payload_size_ofs = Some s"
  using uint16_roundtrip [of s]
  by (simp add: uint16_at_def header_def uint16_bytes_def payload_size_ofs_def)

lemma waitFor_Cons:
  assumes "unread inp = b # bs" and "offset < length buf"
  shows "waitFor c buf offset inp =
           Some (b = c, buf[offset := b], if b = c then offset + 1 else offset, advance 1 inp)"
  using assms by (simp add: waitFor_def read_Cons poke_one)

lemma waitFor_Nil:
  assumes "unread inp = []" and "offset < length buf"
  shows "waitFor c buf offset inp =
           Some (0xFF = c, buf[offset := 0xFF], if 0xFF = c then offset + 1 else offset, inp)"
proof -
  have m: "(- 1 :: byte) = 0xFF" by simp
  show ?thesis using assms by (simp add: waitFor_def read_Nil poke_one m)
qed

text \<open>A buffer of at least eight bytes, taken apart.\<close>

lemma length_ge_8E:
  assumes "8 \<le> length (buf :: 'a list)"
  obtains b0 b1 b2 b3 b4 b5 b6 b7 tl where "buf = b0 # b1 # b2 # b3 # b4 # b5 # b6 # b7 # tl"
  using assms by (auto simp: eval_nat_numeral Suc_le_length_iff)

text \<open>The stage of \<^verbatim>\<open>ReceiveMessage\<close> up to the type and size check.\<close>

lemma ReceiveMessage_header:
  assumes inp: "unread inp = header d t s @ rest" and len: "8 \<le> length buf"
  shows "ReceiveMessage d buf inp ps =
    (if msg_size d (uint t) < 0 \<or> int_to_size_t (msg_size d (uint t)) \<noteq> unat s
     then Some (invalid, 0, header d t s @ drop 8 buf, advance 8 inp)
     else do {
       (recv_buffer, inp') \<leftarrow> readBytes (header d t s @ drop 8 buf) payload_ofs (unat s + 4) (advance 8 inp);
       crc \<leftarrow> crc32 0xFFFFFFFF recv_buffer payload_ofs (unat s);
       crc_in_buffer \<leftarrow> uint32_at recv_buffer (payload_ofs + unat s + 4);
       if crc \<noteq> crc_in_buffer
       then Some (invalid, 0, recv_buffer, inp')
       else Some (uint t, unat s, recv_buffer, inp')
     })"
proof -
  from len obtain b0 b1 b2 b3 b4 b5 b6 b7 tl
    where buf: "buf = b0 # b1 # b2 # b3 # b4 # b5 # b6 # b7 # tl"
    by (rule length_ge_8E)
  let ?h = "uint16_bytes t @ uint16_bytes s"
  have u0: "unread inp = sync # (tag1 d # tag2 d # tag3 d # ?h @ rest)"
    using inp by (simp add: header_def)
  have u1: "unread (advance 1 inp) = tag1 d # (tag2 d # tag3 d # ?h @ rest)"
    by (simp add: unread_advance u0)
  have u2: "unread (advance 2 inp) = tag2 d # (tag3 d # ?h @ rest)"
    by (simp add: unread_advance u0)
  have u3: "unread (advance 3 inp) = tag3 d # (?h @ rest)"
    by (simp add: unread_advance u0)
  have u4: "unread (advance 4 inp) = ?h @ rest"
    by (simp add: unread_advance u0)
  have w0: "waitFor sync buf 0 inp = Some (True, sync # b1 # b2 # b3 # b4 # b5 # b6 # b7 # tl, 1, advance 1 inp)"
    using waitFor_Cons [OF u0, where offset = 0 and buf = buf and c = sync] by (simp add: buf)
  have w1: "waitFor (tag1 d) (sync # b1 # b2 # b3 # b4 # b5 # b6 # b7 # tl) 1 (advance 1 inp)
     = Some (True, sync # tag1 d # b2 # b3 # b4 # b5 # b6 # b7 # tl, 2, advance 2 inp)"
    using waitFor_Cons [OF u1, where offset = 1 and c = "tag1 d"] by (simp add: advance_def)
  have w2: "waitFor (tag2 d) (sync # tag1 d # b2 # b3 # b4 # b5 # b6 # b7 # tl) 2 (advance 2 inp)
     = Some (True, sync # tag1 d # tag2 d # b3 # b4 # b5 # b6 # b7 # tl, 3, advance 3 inp)"
    using waitFor_Cons [OF u2, where offset = 2 and c = "tag2 d"] by (simp add: advance_def)
  have w3: "waitFor (tag3 d) (sync # tag1 d # tag2 d # b3 # b4 # b5 # b6 # b7 # tl) 3 (advance 3 inp)
     = Some (True, sync # tag1 d # tag2 d # tag3 d # b4 # b5 # b6 # b7 # tl, 4, advance 4 inp)"
    using waitFor_Cons [OF u3, where offset = 3 and c = "tag3 d"] by (simp add: advance_def)
  have rb: "readBytes (sync # tag1 d # tag2 d # tag3 d # b4 # b5 # b6 # b7 # tl) message_type_ofs 4 (advance 4 inp)
     = Some (header d t s @ tl, advance 8 inp)"
    using readBytes_prefix [OF u4, of 4 4 "sync # tag1 d # tag2 d # tag3 d # b4 # b5 # b6 # b7 # tl"]
    by (simp add: message_type_ofs_def header_def uint16_bytes_def advance_advance)
  have tl: "drop 8 buf = tl" by (simp add: buf)
  show ?thesis
    by (simp only: ReceiveMessage_def tl w0 w1 w2 w3 rb uint16_at_header_type
          uint16_at_header_size Option.bind.simps prod.case Let_def simp_thms if_True if_False)
qed

section \<open>What \<^verbatim>\<open>ReceiveMessage\<close> does with a frame\<close>

lemma msg_size_range: "msg_size d t = - 1 \<or> (0 \<le> msg_size d t \<and> msg_size d t \<le> 1028)"
  by (cases d) (simp_all add: H2B_size_def B2H_size_def)

lemma B2H_size_range: "msg_size B2H t = - 1 \<or> (0 \<le> msg_size B2H t \<and> msg_size B2H t \<le> 768)"
  by (simp_all add: B2H_size_def)

lemma size_check_iff:
  "(msg_size d t < 0 \<or> int_to_size_t (msg_size d t) \<noteq> n) \<longleftrightarrow> msg_size d t \<noteq> int n"
  using msg_size_range [of d t] by (auto simp: int_to_size_t_def)

lemma uint32_at_cong:
  assumes "length xs = length ys"
    and "\<And>k. m + k < length ys \<Longrightarrow> xs ! (m + k) = ys ! (m + k)"
  shows "uint32_at xs m = uint32_at ys m"
proof (cases "m + 4 \<le> length ys")
  case True
  then have "xs ! m = ys ! m" "xs ! (m + 1) = ys ! (m + 1)"
    "xs ! (m + 2) = ys ! (m + 2)" "xs ! (m + 3) = ys ! (m + 3)"
    using assms(2) [of 0] assms(2) [of 1] assms(2) [of 2] assms(2) [of 3] by simp_all
  then show ?thesis by (simp only: uint32_at_def assms(1))
next
  case False
  then show ?thesis by (simp add: uint32_at_def assms(1))
qed

text \<open>The type and size check fails.\<close>

lemma ReceiveMessage_reject:
  assumes "unread inp = header d t s @ rest" and "8 \<le> length buf"
    and "msg_size d (uint t) \<noteq> int (unat s)"
  shows "ReceiveMessage d buf inp ps = Some (invalid, 0, header d t s @ drop 8 buf, advance 8 inp)"
  using assms(3) by (simp add: ReceiveMessage_header [OF assms(1,2)] size_check_iff)

text \<open>
  A whole frame is in the stream: the outcome is decided by the four bytes that the
  buffer held at \<^verbatim>\<open>payload_ofs + payload_size + 4\<close> before the call.
\<close>

lemma ReceiveMessage_frame:
  assumes inp: "unread inp = header d t s @ payload @ trailer @ rest"
    and buf: "length buf = recv_buffer_size"
    and size: "msg_size d (uint t) = int (unat s)"
    and lp: "length payload = unat s" and lt: "length trailer = 4"
  shows "ReceiveMessage d buf inp ps =
    (case uint32_at buf (payload_ofs + unat s + 4) of
       None \<Rightarrow> None
     | Some crc_in_buffer \<Rightarrow>
         if crc32_le 0xFFFFFFFF payload = crc_in_buffer
         then Some (uint t, unat s,
                    header d t s @ payload @ trailer @ drop (payload_ofs + unat s + 4) buf,
                    advance (payload_ofs + unat s + 4) inp)
         else Some (invalid, 0,
                    header d t s @ payload @ trailer @ drop (payload_ofs + unat s + 4) buf,
                    advance (payload_ofs + unat s + 4) inp))"
proof -
  let ?n = "unat s"
  let ?buf1 = "header d t s @ drop 8 buf"
  let ?buf2 = "header d t s @ payload @ trailer @ drop (payload_ofs + ?n + 4) buf"
  have "int ?n = - 1 \<or> (0 \<le> int ?n \<and> int ?n \<le> 1028)"
    using msg_size_range [of d "uint t"] unfolding size .
  then have le: "?n \<le> 1028" by linarith
  have len8: "8 \<le> length buf" using buf by (simp add: recv_buffer_size_def payload_ofs_def)
  have un: "unread (advance 8 inp) = (payload @ trailer) @ rest"
    by (simp add: unread_advance inp length_header)
  have l1: "length ?buf1 = length buf"
    using len8 by (simp add: length_header)
  have tk: "take payload_ofs ?buf1 = header d t s"
    by (simp add: payload_ofs_def length_header)
  have dr: "drop (payload_ofs + (?n + 4)) ?buf1 = drop (payload_ofs + ?n + 4) buf"
    by (simp add: payload_ofs_def length_header add.commute)
  have ad: "advance (?n + 4) (advance 8 inp) = advance (payload_ofs + ?n + 4) inp"
    by (simp add: advance_def payload_ofs_def)
  have "payload_ofs + (?n + 4) \<le> length ?buf1"
    unfolding l1 using le buf by (simp add: payload_ofs_def recv_buffer_size_def)
  moreover have "length (payload @ trailer) = ?n + 4"
    using lp lt by simp
  ultimately have "readBytes ?buf1 payload_ofs (?n + 4) (advance 8 inp) =
      Some (take payload_ofs ?buf1 @ (payload @ trailer) @ drop (payload_ofs + (?n + 4)) ?buf1,
            advance (?n + 4) (advance 8 inp))"
    using readBytes_prefix [OF un] by blast
  then have rb: "readBytes ?buf1 payload_ofs (?n + 4) (advance 8 inp) =
      Some (?buf2, advance (payload_ofs + ?n + 4) inp)"
    unfolding tk dr ad by simp
  have crc: "crc32 0xFFFFFFFF ?buf2 payload_ofs ?n = Some (crc32_le 0xFFFFFFFF payload)"
    using lp by (simp add: crc32_def peek_def payload_ofs_def length_header)
  have l2: "length ?buf2 = length buf"
    using le buf lp lt by (simp add: length_header payload_ofs_def recv_buffer_size_def)
  have nth: "?buf2 ! (payload_ofs + ?n + 4 + k) = buf ! (payload_ofs + ?n + 4 + k)"
    if "payload_ofs + ?n + 4 + k < length buf" for k
  proof -
    let ?pre = "header d t s @ payload @ trailer"
    have lpre: "length ?pre = payload_ofs + ?n + 4"
      using lp lt by (simp add: length_header payload_ofs_def)
    have "(?pre @ drop (payload_ofs + ?n + 4) buf) ! (length ?pre + k)
            = drop (payload_ofs + ?n + 4) buf ! k"
      by (rule nth_append_length_plus)
    also have "\<dots> = buf ! (payload_ofs + ?n + 4 + k)"
      using that by simp
    finally show ?thesis unfolding lpre by simp
  qed
  have stale: "uint32_at ?buf2 (payload_ofs + ?n + 4) = uint32_at buf (payload_ofs + ?n + 4)"
    using l2 nth by (rule uint32_at_cong)
  have chk: "\<not> (msg_size d (uint t) < 0 \<or> int_to_size_t (msg_size d (uint t)) \<noteq> ?n)"
    unfolding size_check_iff using size by simp
  show ?thesis
  proof (cases "uint32_at buf (payload_ofs + ?n + 4)")
    case None
    then show ?thesis
      by (simp only: ReceiveMessage_header [OF inp len8] chk if_False rb crc stale
            Option.bind.simps prod.case option.case)
  next
    case (Some c)
    then show ?thesis
      by (simp only: ReceiveMessage_header [OF inp len8] chk if_False rb crc stale
            Option.bind.simps prod.case option.case)
         simp
  qed
qed

section \<open>Failed synchronisation, checksums and concrete buffers\<close>

lemma funpow8: "(f ^^ 8) x = f (f (f (f (f (f (f (f x)))))))"
  by (simp add: eval_nat_numeral)

lemmas crc32_eval = crc32_le_def crc32_byte_def crc32_bit_def funpow8

lemma crc32_le_Nil: "crc32_le seed [] = seed"
  by (simp add: crc32_le_def)

lemma uint32_roundtrip:
  "word_of_nat (unat (ucast (w::32 word) :: byte) + 256 * unat (ucast (drop_bit 8 w) :: byte)
     + 65536 * unat (ucast (drop_bit 16 w) :: byte) + 16777216 * unat (ucast (drop_bit 24 w) :: byte)) = w"
proof -
  have lt: "unat w < 4294967296" using unsigned_less [of w, where ?'a = nat] by simp
  have a: "unat (ucast w :: byte) = unat w mod 256"
    by (simp add: unsigned_ucast_eq take_bit_eq_mod)
  have b: "unat (ucast (drop_bit 8 w) :: byte) = unat w div 256 mod 256"
    by (simp add: unsigned_ucast_eq take_bit_eq_mod unat_drop_bit_eq drop_bit_eq_div unat_div_distrib)
  have c: "unat (ucast (drop_bit 16 w) :: byte) = unat w div 65536 mod 256"
    by (simp add: unsigned_ucast_eq take_bit_eq_mod unat_drop_bit_eq drop_bit_eq_div unat_div_distrib)
  have d: "unat (ucast (drop_bit 24 w) :: byte) = unat w div 16777216"
    using lt by (simp add: unsigned_ucast_eq take_bit_eq_mod unat_drop_bit_eq drop_bit_eq_div unat_div_distrib)
  have e1: "unat w mod 65536 = 256 * (unat w div 256 mod 256) + unat w mod 256"
    using mod_mult2_eq [of "unat w" 256 256] by simp
  have e2: "unat w mod 16777216 = 65536 * (unat w div 65536 mod 256) + unat w mod 65536"
    using mod_mult2_eq [of "unat w" 65536 256] by simp
  have e3: "unat w = 16777216 * (unat w div 16777216) + unat w mod 16777216"
    by simp
  have "unat w mod 256 + 256 * (unat w div 256 mod 256) + 65536 * (unat w div 65536 mod 256)
          + 16777216 * (unat w div 16777216) = unat w"
    using e1 e2 e3 by linarith
  then show ?thesis unfolding a b c d by simp
qed

lemma uint32_at_bytes:
  assumes "length pre = ofs"
  shows "uint32_at (pre @ uint32_bytes w @ post) ofs = Some w"
proof -
  have n: "(pre @ uint32_bytes w @ post) ! (ofs + k) = (uint32_bytes w @ post) ! k" for k
    using assms nth_append_length_plus [of pre "uint32_bytes w @ post" k] by simp
  have "ofs + 4 \<le> length (pre @ uint32_bytes w @ post)"
    using assms by (simp add: length_uint32_bytes)
  then show ?thesis
    using n [of 0] n [of 1] n [of 2] n [of 3] uint32_roundtrip [of w]
    by (simp add: uint32_at_def uint32_bytes_def)
qed

lemma ReceiveMessage_sync_mismatch:
  assumes "unread inp = b # bs" and "b \<noteq> sync" and "0 < length buf"
  shows "ReceiveMessage d buf inp ps = Some (invalid, ps, buf[0 := b], advance 1 inp)"
  using assms by (simp add: ReceiveMessage_def waitFor_Cons)

lemma ReceiveMessage_end_of_stream:
  assumes "unread inp = []" and "0 < length buf"
  shows "ReceiveMessage d buf inp ps = Some (invalid, ps, buf[0 := 0xFF], inp)"
  using assms by (simp add: ReceiveMessage_def waitFor_Nil sync_def)

lemma unread_stream_of: "unread (stream_of bs) = bs"
  by (simp add: unread_def stream_of_def)

lemma length_fresh_buffer: "length fresh_buffer = recv_buffer_size"
  by (simp add: fresh_buffer_def)

lemma uint32_at_fresh: "ofs + 4 \<le> recv_buffer_size \<Longrightarrow> uint32_at fresh_buffer ofs = Some 0"
  by (simp add: uint32_at_def fresh_buffer_def)

section \<open>Header population, the hooks and the relay\<close>

lemma populateHeader_eq:
  assumes "8 \<le> length buf"
  shows "populateHeader d buf message_type =
    Some (int_to_size_t (msg_size d message_type),
          header d (word_of_int message_type)
            (word_of_nat (int_to_size_t (msg_size d message_type))) @ drop 8 buf)"
proof -
  from assms obtain b0 b1 b2 b3 b4 b5 b6 b7 tl
    where buf: "buf = b0 # b1 # b2 # b3 # b4 # b5 # b6 # b7 # tl"
    by (rule length_ge_8E)
  show ?thesis
    unfolding populateHeader_def Let_def
    by (simp add: buf poke_def header_def uint16_bytes_def ofs_defs sync_def)
qed

lemma on_payload_id:
  assumes "payload_ofs + n \<le> length buf" and "\<And>v. hook v Serial = (False, v, f v)"
  shows "on_payload n hook buf Serial = Some (False, buf, f (take n (drop payload_ofs buf)))"
  using assms by (simp add: on_payload_def peek_def poke_peek)

lemma processBody2Head_eq:
  assumes "length recv_buffer = recv_buffer_size"
  shows "processBody2Head msg_type recv_buffer Serial =
    Some (False, recv_buffer,
          if msg_type = dataCharacter
          then print_text (take 32 (drop payload_ofs recv_buffer)) 0 Serial else Serial)"
proof -
  have a: "on_payload 4 process_Ack recv_buffer Serial = Some (False, recv_buffer, Serial)"
    using on_payload_id [of 4 recv_buffer process_Ack Serial "\<lambda>v. Serial"] assms
    by (simp add: process_Ack_def ofs_defs)
  have c: "on_payload 32 process_DataCharacter recv_buffer Serial =
      Some (False, recv_buffer, print_text (take 32 (drop payload_ofs recv_buffer)) 0 Serial)"
    using on_payload_id [of 32 recv_buffer process_DataCharacter Serial "\<lambda>v. print_text v 0 Serial"] assms
    by (simp add: process_DataCharacter_def ofs_defs)
  have f: "on_payload 768 process_B2HDataFrame recv_buffer Serial = Some (False, recv_buffer, Serial)"
    using on_payload_id [of 768 recv_buffer process_B2HDataFrame Serial "\<lambda>v. Serial"] assms
    by (simp add: process_B2HDataFrame_def ofs_defs)
  show ?thesis
    by (simp add: processBody2Head_def a c f MessageType_defs)
qed

lemma relay_eq:
  assumes rcv: "ReceiveMessage B2H buf inp 0 = Some (mt, n, buf1, inp1)"
    and len: "length buf1 = recv_buffer_size" and n: "n \<le> 768"
  shows "ReceiveAndRewriteB2HMessage buf Serial inp out =
     Some (take (payload_ofs + n + 4) buf1
             @ uint32_bytes (crc32_le 0xFFFFFFFF (take n (drop payload_ofs buf1)))
             @ drop (payload_ofs + n + 4 + 4) buf1,
           if mt = dataCharacter
           then print_text (take 32 (drop payload_ofs buf1)) 0 Serial else Serial,
           inp1,
           Stream_write (take (n + payload_ofs + 4) buf1) out)"
proof -
  let ?crc = "crc32_le 0xFFFFFFFF (take n (drop payload_ofs buf1))"
  let ?buf3 = "take (payload_ofs + n + 4) buf1 @ uint32_bytes ?crc
                 @ drop (payload_ofs + n + 4 + 4) buf1"
  have c: "crc32 0xFFFFFFFF buf1 payload_ofs n = Some ?crc"
    using len n by (simp add: crc32_def peek_def ofs_defs)
  have p: "poke buf1 (payload_ofs + n + 4) (uint32_bytes ?crc) = Some ?buf3"
    using len n by (simp add: poke_def length_uint32_bytes ofs_defs)
  have k: "peek ?buf3 0 (n + payload_ofs + 4) = Some (take (n + payload_ofs + 4) buf1)"
    using len n by (simp add: peek_def length_uint32_bytes ofs_defs add.commute)
  show ?thesis
    by (simp only: ReceiveAndRewriteB2HMessage_def rcv processBody2Head_eq [OF len] c p k
          Option.bind.simps prod.case)
qed

section \<open>The text message in closed form\<close>

text \<open>
  \<^verbatim>\<open>DataCharacterMsg\<close> in closed form: \<open>k\<close> bytes of text and a zero byte go to the
  start of the payload; the rest of the payload and the four bytes after it stay as
  they were; the checksum of the 32 payload bytes goes to the four bytes after those.
\<close>

lemma take_prefix: "length xs = n \<Longrightarrow> take n (xs @ ys) = xs"
  by simp

lemma drop_prefix: "length xs = n \<Longrightarrow> drop n (xs @ ys) = ys"
  by simp

lemma poke_after_prefix:
  "length pre + length bs \<le> length buf \<Longrightarrow>
   poke (pre @ drop (length pre) buf) (length pre) bs
     = Some (pre @ bs @ drop (length pre + length bs) buf)"
  by (simp add: poke_def add.commute)

lemma DataCharacterMsg_eq:
  assumes len: "length buf = recv_buffer_size"
    and nb: "0 \<le> numBytes" and k: "k = nat (min numBytes 31)" and str: "k \<le> length str"
  shows "DataCharacterMsg d buf str numBytes =
    Some (32,
      header d 0x6364 32
      @ (take k str @ 0 # take (31 - k) (drop (payload_ofs + k + 1) buf))
      @ take 4 (drop (payload_ofs + 32) buf)
      @ uint32_bytes (crc32_le 0xFFFFFFFF
           (take k str @ 0 # take (31 - k) (drop (payload_ofs + k + 1) buf)))
      @ drop (payload_ofs + 32 + 4 + 4) buf)"
proof -
  let ?h = "header d 0x6364 32"
  let ?pay = "take k str @ 0 # take (31 - k) (drop (payload_ofs + k + 1) buf)"
  have k31: "k \<le> 31" using k nb by simp
  have sz: "msg_size d dataCharacter = 32"
    by (cases d) (simp_all add: H2B_size_def B2H_size_def)
  have len8: "8 \<le> length buf" using len by (simp add: ofs_defs)
  have ph: "populateHeader d buf dataCharacter = Some (32, ?h @ drop 8 buf)"
    using populateHeader_eq [OF len8, of d dataCharacter] unfolding sz
    by (simp add: int_to_size_t_def dataCharacter_def)
  let ?b1 = "?h @ drop 8 buf"
  let ?b2 = "?h @ take k str @ drop (payload_ofs + k) buf"
  let ?b3 = "?h @ take k str @ 0 # drop (payload_ofs + k + 1) buf"
  have p1: "poke ?b1 payload_ofs (take (nat (min numBytes 31)) str) = Some ?b2"
    using len k31 str unfolding k [symmetric]
    by (simp add: poke_def length_header ofs_defs min_absorb2 add.commute)
  have p2: "poke ?b2 (payload_ofs + nat (min numBytes 31)) [0] = Some ?b3"
    using len k31 str unfolding k [symmetric]
    by (simp add: poke_def length_header ofs_defs min_absorb2 add.commute)
  have split3: "drop (payload_ofs + k + 1) buf =
      take (31 - k) (drop (payload_ofs + k + 1) buf) @ take 4 (drop (payload_ofs + 32) buf)
        @ drop (payload_ofs + 32 + 4) buf"
  proof -
    have "drop (payload_ofs + k + 1) buf =
        take (31 - k) (drop (payload_ofs + k + 1) buf) @ drop (31 - k) (drop (payload_ofs + k + 1) buf)"
      by (rule append_take_drop_id [symmetric])
    moreover have "drop (31 - k) (drop (payload_ofs + k + 1) buf) = drop (payload_ofs + 32) buf"
      using k31 by (simp add: add.commute)
    moreover have "drop (payload_ofs + 32) buf =
        take 4 (drop (payload_ofs + 32) buf) @ drop 4 (drop (payload_ofs + 32) buf)"
      by (rule append_take_drop_id [symmetric])
    moreover have "drop 4 (drop (payload_ofs + 32) buf) = drop (payload_ofs + 32 + 4) buf"
      by (simp add: add.commute)
    ultimately show ?thesis by (simp only:)
  qed
  have b3: "?b3 = ?h @ ?pay @ take 4 (drop (payload_ofs + 32) buf) @ drop (payload_ofs + 32 + 4) buf"
    using split3 by simp
  have lpay: "length ?pay = 32"
    using len k31 str by (simp add: ofs_defs min_absorb2)
  have lb3: "length ?b3 = recv_buffer_size"
    using len k31 str by (simp add: length_header ofs_defs min_absorb2)
  have c: "crc32 0xFFFFFFFF ?b3 payload_ofs (nat 32) = Some (crc32_le 0xFFFFFFFF ?pay)"
  proof -
    have lh: "length ?h = payload_ofs" by (simp add: length_header payload_ofs_def)
    have "take 32 (drop payload_ofs ?b3) = ?pay"
      unfolding b3 drop_prefix [OF lh] by (rule take_prefix [OF lpay])
    moreover have "payload_ofs + 32 \<le> length ?b3"
      unfolding lb3 by (simp add: ofs_defs)
    ultimately show ?thesis by (simp add: crc32_def peek_def)
  qed
  have p3: "poke ?b3 (payload_ofs + nat 32 + 4) (uint32_bytes (crc32_le 0xFFFFFFFF ?pay)) =
      Some (?h @ ?pay @ take 4 (drop (payload_ofs + 32) buf)
            @ uint32_bytes (crc32_le 0xFFFFFFFF ?pay) @ drop (payload_ofs + 32 + 4 + 4) buf)"
  proof -
    let ?pre = "?h @ ?pay @ take 4 (drop (payload_ofs + 32) buf)"
    have lpre: "length ?pre = payload_ofs + 32 + 4"
      using lpay len by (simp add: length_header ofs_defs)
    have e: "?b3 = ?pre @ drop (payload_ofs + 32 + 4) buf" using b3 by simp
    have "length ?pre + length (uint32_bytes (crc32_le 0xFFFFFFFF ?pay)) \<le> length buf"
      unfolding lpre length_uint32_bytes using len by (simp add: ofs_defs)
    from poke_after_prefix [OF this]
    have "poke (?pre @ drop (payload_ofs + 32 + 4) buf) (payload_ofs + 32 + 4)
            (uint32_bytes (crc32_le 0xFFFFFFFF ?pay))
          = Some (?pre @ uint32_bytes (crc32_le 0xFFFFFFFF ?pay)
                  @ drop (payload_ofs + 32 + 4 + 4) buf)"
      unfolding lpre length_uint32_bytes .
    then show ?thesis unfolding e [symmetric] by simp
  qed
  have guard: "\<not> (min numBytes 31 < 0 \<or> length str < nat (min numBytes 31))"
    using nb str k by simp
  show ?thesis
    by (simp only: DataCharacterMsg_def ph Option.bind.simps prod.case Let_def guard if_False
          p1 p2 sz c p3 int_to_size_t_def)
       simp
qed

section \<open>Buffers with known contents\<close>

lemma length_buffer_with_word:
  "payload_ofs + n + 4 + 4 \<le> recv_buffer_size \<Longrightarrow> length (buffer_with_word n w) = recv_buffer_size"
  by (simp add: buffer_with_word_def fresh_buffer_def length_uint32_bytes)

lemma uint32_at_buffer_with_word:
  "payload_ofs + n + 4 + 4 \<le> recv_buffer_size \<Longrightarrow>
   uint32_at (buffer_with_word n w) (payload_ofs + n + 4) = Some w"
  unfolding buffer_with_word_def
  by (rule uint32_at_bytes) (simp add: fresh_buffer_def)

lemma crc_ack_one: "crc32_le 0xFFFFFFFF [1, 0, 0, 0] = 0x66074786"
  by (simp add: crc32_eval)

lemma replicate_27: "replicate 27 (0::byte) = 0 # replicate 26 0"
proof -
  have "replicate (Suc 26) (0::byte) = 0 # replicate 26 0" by (rule replicate_Suc)
  then show ?thesis by simp
qed

lemma DataCharacterMsg_Hello:
  "DataCharacterMsg B2H fresh_buffer Hello 5 = Some (32, buffer_after_Hello)"
proof -
  have a: "take 26 (drop (payload_ofs + 5 + 1) fresh_buffer) = replicate 26 0"
    by (simp add: fresh_buffer_def ofs_defs)
  have b: "take 4 (drop (payload_ofs + 32) fresh_buffer) = replicate 4 0"
    by (simp add: fresh_buffer_def ofs_defs)
  have c: "drop (payload_ofs + 32 + 4 + 4) fresh_buffer = replicate 992 0"
    by (simp add: fresh_buffer_def ofs_defs)
  have "DataCharacterMsg B2H fresh_buffer Hello 5 =
    Some (32,
      header B2H 0x6364 32
      @ (take 5 Hello @ 0 # take (31 - 5) (drop (payload_ofs + 5 + 1) fresh_buffer))
      @ take 4 (drop (payload_ofs + 32) fresh_buffer)
      @ uint32_bytes (crc32_le 0xFFFFFFFF
           (take 5 Hello @ 0 # take (31 - 5) (drop (payload_ofs + 5 + 1) fresh_buffer)))
      @ drop (payload_ofs + 32 + 4 + 4) fresh_buffer)"
    by (rule DataCharacterMsg_eq [OF length_fresh_buffer]) (simp_all add: Hello_def)
  also have "31 - 5 = (26::nat)" by simp
  finally show ?thesis
    unfolding a b c buffer_after_Hello_def replicate_27 .
qed

lemma length_buffer_after_Hello: "length buffer_after_Hello = recv_buffer_size"
  by (simp add: buffer_after_Hello_def length_header length_uint32_bytes Hello_def ofs_defs)

lemma DataCharacterMsg_Hi_eq:
  assumes "length buf = recv_buffer_size"
  shows "DataCharacterMsg d buf Hi 2 =
    Some (32,
      (header d 0x6364 32 @ ([0x48, 0x69, 0] @ take 29 (drop (payload_ofs + 3) buf))
         @ take 4 (drop (payload_ofs + 32) buf))
      @ uint32_bytes (crc32_le 0xFFFFFFFF ([0x48, 0x69, 0] @ take 29 (drop (payload_ofs + 3) buf)))
      @ drop (payload_ofs + 32 + 4 + 4) buf)"
proof -
  have "DataCharacterMsg d buf Hi 2 =
    Some (32,
      header d 0x6364 32
      @ (take 2 Hi @ 0 # take (31 - 2) (drop (payload_ofs + 2 + 1) buf))
      @ take 4 (drop (payload_ofs + 32) buf)
      @ uint32_bytes (crc32_le 0xFFFFFFFF
           (take 2 Hi @ 0 # take (31 - 2) (drop (payload_ofs + 2 + 1) buf)))
      @ drop (payload_ofs + 32 + 4 + 4) buf)"
    by (rule DataCharacterMsg_eq [OF assms]) (simp_all add: Hi_def)
  moreover have "31 - 2 = (29::nat)" and "payload_ofs + 2 + 1 = payload_ofs + 3"
    by simp_all
  moreover have "take 2 Hi = [0x48, 0x69]"
    by (simp add: Hi_def)
  ultimately show ?thesis by (simp only: append_Cons append_Nil append_assoc)
qed

lemma payload_Hi:
  assumes "length buf = recv_buffer_size"
  shows "payload_of (DataCharacterMsg d buf Hi 2)
           = Some ([0x48, 0x69, 0] @ take 29 (drop (payload_ofs + 3) buf))"
proof -
  let ?pay = "[0x48, 0x69, 0] @ take 29 (drop (payload_ofs + 3) buf)"
  have lh: "length (header d 0x6364 32) = payload_ofs"
    by (simp add: length_header ofs_defs)
  have lp: "length ?pay = 32" using assms by (simp add: ofs_defs)
  have "take 32 (drop payload_ofs (header d 0x6364 32 @ ?pay @ xs)) = ?pay" for xs
    unfolding drop_prefix [OF lh] by (rule take_prefix [OF lp])
  then show ?thesis
    unfolding DataCharacterMsg_Hi_eq [OF assms] payload_of_def by simp
qed

lemma payload_prefix:
  "length h = payload_ofs \<Longrightarrow> length pay = n \<Longrightarrow> take n (drop payload_ofs (h @ pay @ xs)) = pay"
  by simp

section \<open>The claims about receiving\<close>

text \<open>
  Claim C1 says that \<^verbatim>\<open>ReceiveMessage\<close> succeeds exactly when the CRC32 of the payload
  equals the four bytes that follow the payload in the received frame.  The code reads
  \<^verbatim>\<open>crc_in_buffer\<close> at \<^verbatim>\<open>payload_ofs + payload_size + 4\<close>, four bytes past the
  received trailer, where the buffer still holds what it held before the call (see
  \<open>ReceiveMessage_frame\<close>).  Evaluated here: a Head-to-Body shutdown frame with the
  right trailer, received into the zero-initialised buffer, is rejected; the same frame
  with the trailer 00 00 00 00 is accepted when the buffer holds FF FF FF FF at
  offset 12.
\<close>

theorem crc_trailer_not_compared:
  "uint32_bytes (crc32_le 0xFFFFFFFF []) = [0xFF, 0xFF, 0xFF, 0xFF]
   \<and> ReceiveMessage H2B fresh_buffer
        (stream_of (header H2B 0x6473 0 @ [0xFF, 0xFF, 0xFF, 0xFF])) 0
       = Some (invalid, 0,
               header H2B 0x6473 0 @ [0xFF, 0xFF, 0xFF, 0xFF] @ drop 12 fresh_buffer,
               advance 12 (stream_of (header H2B 0x6473 0 @ [0xFF, 0xFF, 0xFF, 0xFF])))
   \<and> ReceiveMessage H2B (buffer_with_word 0 0xFFFFFFFF)
        (stream_of (header H2B 0x6473 0 @ [0, 0, 0, 0])) 0
       = Some (shutdown, 0,
               header H2B 0x6473 0 @ [0, 0, 0, 0] @ drop 12 (buffer_with_word 0 0xFFFFFFFF),
               advance 12 (stream_of (header H2B 0x6473 0 @ [0, 0, 0, 0])))"
proof -
  have s: "msg_size H2B (uint (0x6473 :: 16 word)) = int (unat (0 :: 16 word))"
    by (simp add: H2B_size_def MessageType_defs)
  have c: "uint32_bytes (crc32_le 0xFFFFFFFF []) = [0xFF, 0xFF, 0xFF, 0xFF]"
    by (simp add: crc32_le_Nil uint32_bytes_def)
  have u1: "unread (stream_of (header H2B 0x6473 0 @ [0xFF, 0xFF, 0xFF, 0xFF]))
      = header H2B 0x6473 0 @ [] @ [0xFF, 0xFF, 0xFF, 0xFF] @ []"
    by (simp add: unread_stream_of)
  have r1: "ReceiveMessage H2B fresh_buffer
        (stream_of (header H2B 0x6473 0 @ [0xFF, 0xFF, 0xFF, 0xFF])) 0
       = Some (invalid, 0,
               header H2B 0x6473 0 @ [0xFF, 0xFF, 0xFF, 0xFF] @ drop 12 fresh_buffer,
               advance 12 (stream_of (header H2B 0x6473 0 @ [0xFF, 0xFF, 0xFF, 0xFF])))"
    using ReceiveMessage_frame [OF u1 length_fresh_buffer s, of 0]
    by (simp add: crc32_le_Nil uint32_at_fresh ofs_defs)
  have u2: "unread (stream_of (header H2B 0x6473 0 @ [0, 0, 0, 0]))
      = header H2B 0x6473 0 @ [] @ [0, 0, 0, 0] @ []"
    by (simp add: unread_stream_of)
  have l2: "length (buffer_with_word 0 0xFFFFFFFF) = recv_buffer_size"
    by (rule length_buffer_with_word) (simp add: ofs_defs)
  have w2: "uint32_at (buffer_with_word 0 0xFFFFFFFF) (payload_ofs + 0 + 4) = Some 0xFFFFFFFF"
    by (rule uint32_at_buffer_with_word) (simp add: ofs_defs)
  have r2: "ReceiveMessage H2B (buffer_with_word 0 0xFFFFFFFF)
        (stream_of (header H2B 0x6473 0 @ [0, 0, 0, 0])) 0
       = Some (shutdown, 0,
               header H2B 0x6473 0 @ [0, 0, 0, 0] @ drop 12 (buffer_with_word 0 0xFFFFFFFF),
               advance 12 (stream_of (header H2B 0x6473 0 @ [0, 0, 0, 0])))"
    using ReceiveMessage_frame [OF u2 l2 s, of 0] w2
    by (simp add: crc32_le_Nil ofs_defs shutdown_def)
  from c r1 r2 show ?thesis by (simp only:)
qed

text \<open>
  Claim C2 says that every failed \<^verbatim>\<open>ReceiveMessage\<close> sets \<^verbatim>\<open>payload_size\<close> to zero.
  Evaluated here, with 32 in the caller's \<^verbatim>\<open>payload_size\<close>: on a first byte that is
  not the sync byte the macro \<^verbatim>\<open>waitFor\<close> returns the sentinel and \<^verbatim>\<open>payload_size\<close>
  is still 32, while a header with a type unknown to the direction gives the sentinel
  and 0.
\<close>

theorem sync_mismatch_keeps_payload_size:
  "ReceiveMessage B2H fresh_buffer (stream_of [0x55]) 32
     = Some (invalid, 32, fresh_buffer[0 := 0x55], advance 1 (stream_of [0x55]))
   \<and> ReceiveMessage B2H fresh_buffer (stream_of (header B2H 0x736C 16)) 32
     = Some (invalid, 0, header B2H 0x736C 16 @ drop 8 fresh_buffer,
             advance 8 (stream_of (header B2H 0x736C 16)))"
proof -
  have a: "ReceiveMessage B2H fresh_buffer (stream_of [0x55]) 32
     = Some (invalid, 32, fresh_buffer[0 := 0x55], advance 1 (stream_of [0x55]))"
    by (rule ReceiveMessage_sync_mismatch [where bs = "[]"])
       (simp_all add: unread_stream_of sync_def fresh_buffer_def ofs_defs)
  have "unread (stream_of (header B2H 0x736C 16)) = header B2H 0x736C 16 @ []"
    by (simp add: unread_stream_of)
  moreover have "8 \<le> length fresh_buffer"
    by (simp add: fresh_buffer_def ofs_defs)
  moreover have "msg_size B2H (uint (0x736C :: 16 word)) \<noteq> int (unat (16 :: 16 word))"
    by (simp add: B2H_size_def MessageType_defs)
  ultimately have b: "ReceiveMessage B2H fresh_buffer (stream_of (header B2H 0x736C 16)) 32
     = Some (invalid, 0, header B2H 0x736C 16 @ drop 8 fresh_buffer,
             advance 8 (stream_of (header B2H 0x736C 16)))"
    by (rule ReceiveMessage_reject)
  from a b show ?thesis by (simp only:)
qed

section \<open>The claims about the relay, the round trip and the tables\<close>

text \<open>
  Claim C3 says that \<^verbatim>\<open>ReceiveAndRewriteB2HMessage\<close> writes nothing to the outbound
  stream when the receive fails.  Evaluated here on the zero-initialised buffer and the
  one-byte stream 0x55: the receive returns the sentinel, and the relay goes on to
  store a checksum at offset 12 and to write the first 12 bytes of the buffer to the
  outbound stream.
\<close>

theorem relay_forwards_after_failed_receive:
  "ReceiveMessage B2H fresh_buffer (stream_of [0x55]) 0
     = Some (invalid, 0, fresh_buffer[0 := 0x55], advance 1 (stream_of [0x55]))
   \<and> ReceiveAndRewriteB2HMessage fresh_buffer (stream_of []) (stream_of [0x55]) (stream_of [])
     = Some (0x55 # replicate 11 0 @ [0xFF, 0xFF, 0xFF, 0xFF] @ replicate 1024 0,
             stream_of [], advance 1 (stream_of [0x55]),
             stream_of (0x55 # replicate 11 0))"
proof -
  have a: "ReceiveMessage B2H fresh_buffer (stream_of [0x55]) 0
     = Some (invalid, 0, fresh_buffer[0 := 0x55], advance 1 (stream_of [0x55]))"
    by (rule ReceiveMessage_sync_mismatch [where bs = "[]"])
       (simp_all add: unread_stream_of sync_def fresh_buffer_def ofs_defs)
  have l: "length (fresh_buffer[0 := 0x55]) = recv_buffer_size"
    by (simp add: fresh_buffer_def)
  have "replicate (Suc 1039) (0::byte) = 0 # replicate 1039 0"
    by (rule replicate_Suc)
  then have "replicate 1040 (0::byte) = 0 # replicate 1039 0"
    by simp
  then have f: "fresh_buffer[0 := 0x55] = 0x55 # replicate 1039 0"
    by (simp add: fresh_buffer_def ofs_defs)
  have b: "ReceiveAndRewriteB2HMessage fresh_buffer (stream_of []) (stream_of [0x55]) (stream_of [])
     = Some (0x55 # replicate 11 0 @ [0xFF, 0xFF, 0xFF, 0xFF] @ replicate 1024 0,
             stream_of [], advance 1 (stream_of [0x55]),
             stream_of (0x55 # replicate 11 0))"
    using relay_eq [OF a l, of "stream_of []" "stream_of []"]
    by (simp add: f ofs_defs invalid_def dataCharacter_def crc32_le_Nil uint32_bytes_def
          Stream_write_def stream_of_def)
  from a b show ?thesis by (simp only:)
qed

text \<open>
  Claim C4 says that a frame made of the header that \<^verbatim>\<open>populateHeader\<close> writes, a
  payload and the payload's CRC32 is received with the same type and size.  Evaluated
  here for the Body-to-Head acknowledgment with the payload 01 00 00 00 and the
  zero-initialised receive buffer: \<^verbatim>\<open>populateHeader\<close> returns 4 and writes the header,
  and \<^verbatim>\<open>ReceiveMessage\<close> returns the sentinel and size 0 for the frame.
\<close>

theorem round_trip_rejected:
  "populateHeader B2H (replicate 12 0) ack = Some (4, header B2H 0x6B61 4 @ replicate 4 0)
   \<and> ReceiveMessage B2H fresh_buffer
        (stream_of (header B2H 0x6B61 4 @ [1, 0, 0, 0]
                      @ uint32_bytes (crc32_le 0xFFFFFFFF [1, 0, 0, 0]))) 0
       = Some (invalid, 0,
               header B2H 0x6B61 4 @ [1, 0, 0, 0]
                 @ uint32_bytes (crc32_le 0xFFFFFFFF [1, 0, 0, 0]) @ drop 16 fresh_buffer,
               advance 16 (stream_of (header B2H 0x6B61 4 @ [1, 0, 0, 0]
                      @ uint32_bytes (crc32_le 0xFFFFFFFF [1, 0, 0, 0]))))"
proof -
  have a: "populateHeader B2H (replicate 12 0) ack = Some (4, header B2H 0x6B61 4 @ replicate 4 0)"
    using populateHeader_eq [of "replicate 12 0" B2H ack]
    by (simp add: B2H_size_def MessageType_defs int_to_size_t_def)
  let ?inp = "stream_of (header B2H 0x6B61 4 @ [1, 0, 0, 0]
                      @ uint32_bytes (crc32_le 0xFFFFFFFF [1, 0, 0, 0]))"
  have u: "unread ?inp = header B2H 0x6B61 4 @ [1, 0, 0, 0]
                      @ uint32_bytes (crc32_le 0xFFFFFFFF [1, 0, 0, 0]) @ []"
    by (simp add: unread_stream_of)
  have s: "msg_size B2H (uint (0x6B61 :: 16 word)) = int (unat (4 :: 16 word))"
    by (simp add: B2H_size_def MessageType_defs)
  have b: "ReceiveMessage B2H fresh_buffer ?inp 0
       = Some (invalid, 0,
               header B2H 0x6B61 4 @ [1, 0, 0, 0]
                 @ uint32_bytes (crc32_le 0xFFFFFFFF [1, 0, 0, 0]) @ drop 16 fresh_buffer,
               advance 16 ?inp)"
    using ReceiveMessage_frame [OF u length_fresh_buffer s, of 0]
    by (simp add: length_uint32_bytes uint32_at_fresh ofs_defs crc_ack_one)
  from a b show ?thesis by (simp only:)
qed

text \<open>
  Claim C5.  The Head-to-Body table maps exactly dataCharacter to 32, dataFrame to 64,
  shutdown to 0, updateFirmware to 1028, mode to 0, version to 0, lights to 16, validate
  to 0 and erase to 0; the Body-to-Head table maps exactly dataCharacter to 32,
  updateFirmware to 32, dataFrame to 768, bootFrame to 0, ack to 4, version to 40 and
  validate to 0; every other code gets the value -1.  A frame whose header carries a
  16-bit type code that the direction's table does not list is rejected with the
  sentinel type and size 0, whatever its size field, the bytes after the header, the
  contents of the buffer and the caller's \<^verbatim>\<open>payload_size\<close> are; the call reads the
  eight header bytes only.
\<close>

theorem size_tables_and_type_rejection:
  "H2B_size dataCharacter = 32 \<and> H2B_size dataFrame = 64 \<and> H2B_size shutdown = 0
   \<and> H2B_size updateFirmware = 1028 \<and> H2B_size mode = 0 \<and> H2B_size version = 0
   \<and> H2B_size lights = 16 \<and> H2B_size validate = 0 \<and> H2B_size erase = 0
   \<and> {t. H2B_size t \<noteq> - 1} =
       {dataCharacter, dataFrame, shutdown, updateFirmware, mode, version, lights, validate, erase}
   \<and> B2H_size dataCharacter = 32 \<and> B2H_size updateFirmware = 32 \<and> B2H_size dataFrame = 768
   \<and> B2H_size bootFrame = 0 \<and> B2H_size ack = 4 \<and> B2H_size version = 40
   \<and> B2H_size validate = 0
   \<and> {t. B2H_size t \<noteq> - 1} =
       {dataCharacter, updateFirmware, dataFrame, bootFrame, ack, version, validate}
   \<and> (\<forall>d t s rest buf inp ps.
         msg_size d (uint t) = - 1 \<and> unread inp = header d t s @ rest \<and> 8 \<le> length buf
         \<longrightarrow> ReceiveMessage d buf inp ps
               = Some (invalid, 0, header d t s @ drop 8 buf, advance 8 inp))"
proof -
  have h: "H2B_size dataCharacter = 32 \<and> H2B_size dataFrame = 64 \<and> H2B_size shutdown = 0
   \<and> H2B_size updateFirmware = 1028 \<and> H2B_size mode = 0 \<and> H2B_size version = 0
   \<and> H2B_size lights = 16 \<and> H2B_size validate = 0 \<and> H2B_size erase = 0"
    by (simp add: H2B_size_def MessageType_defs)
  have hs: "{t. H2B_size t \<noteq> - 1} =
       {dataCharacter, dataFrame, shutdown, updateFirmware, mode, version, lights, validate, erase}"
    by (auto simp: H2B_size_def split: if_splits)
  have b: "B2H_size dataCharacter = 32 \<and> B2H_size updateFirmware = 32 \<and> B2H_size dataFrame = 768
   \<and> B2H_size bootFrame = 0 \<and> B2H_size ack = 4 \<and> B2H_size version = 40
   \<and> B2H_size validate = 0"
    by (simp add: B2H_size_def MessageType_defs)
  have bs: "{t. B2H_size t \<noteq> - 1} =
       {dataCharacter, updateFirmware, dataFrame, bootFrame, ack, version, validate}"
    by (auto simp: B2H_size_def split: if_splits)
  have r: "ReceiveMessage d buf inp ps = Some (invalid, 0, header d t s @ drop 8 buf, advance 8 inp)"
    if "msg_size d (uint t) = - 1" and "unread inp = header d t s @ rest" and "8 \<le> length buf"
    for d t s rest buf inp ps
  proof -
    have "msg_size d (uint t) \<noteq> int (unat s)" unfolding that(1) by linarith
    with that(2,3) show ?thesis by (rule ReceiveMessage_reject)
  qed
  from h hs b bs r show ?thesis by blast
qed

theorem size_tables_and_type_rejection_witness:
  "msg_size B2H (uint (0x736C :: 16 word)) = - 1
   \<and> unread (stream_of (header B2H 0x736C 16 @ [1, 2, 3, 4])) = header B2H 0x736C 16 @ [1, 2, 3, 4]
   \<and> 8 \<le> length fresh_buffer
   \<and> ReceiveMessage B2H fresh_buffer (stream_of (header B2H 0x736C 16 @ [1, 2, 3, 4])) 5
       = Some (invalid, 0, header B2H 0x736C 16 @ drop 8 fresh_buffer,
               advance 8 (stream_of (header B2H 0x736C 16 @ [1, 2, 3, 4])))"
proof -
  have a: "msg_size B2H (uint (0x736C :: 16 word)) = - 1"
    by (simp add: B2H_size_def MessageType_defs)
  have u: "unread (stream_of (header B2H 0x736C 16 @ [1, 2, 3, 4])) = header B2H 0x736C 16 @ [1, 2, 3, 4]"
    by (simp add: unread_def stream_of_def)
  have l: "8 \<le> length fresh_buffer"
    by (simp add: fresh_buffer_def ofs_defs)
  from size_tables_and_type_rejection a u l show ?thesis by blast
qed

text \<open>
  Claim C6 says that, for a stream of one byte that is not the sync byte followed by a
  valid frame, a first \<^verbatim>\<open>ReceiveMessage\<close> fails and reads that byte only, and a
  second one returns the frame's type and size.  Evaluated here for the byte 0x55
  followed by a Body-to-Head validate frame, from the zero-initialised buffer: the first
  call returns the sentinel and has read one byte, the frame is what is left in the
  stream, and the second call reads all of the frame and returns the sentinel and
  size 0.
\<close>

theorem resync_second_call_rejected:
  "ReceiveMessage B2H fresh_buffer
      (stream_of (0x55 # header B2H 0x7374 0 @ uint32_bytes (crc32_le 0xFFFFFFFF []))) 0
     = Some (invalid, 0, fresh_buffer[0 := 0x55],
         advance 1 (stream_of (0x55 # header B2H 0x7374 0 @ uint32_bytes (crc32_le 0xFFFFFFFF []))))
   \<and> unread (advance 1 (stream_of (0x55 # header B2H 0x7374 0 @ uint32_bytes (crc32_le 0xFFFFFFFF []))))
     = header B2H 0x7374 0 @ uint32_bytes (crc32_le 0xFFFFFFFF [])
   \<and> ReceiveMessage B2H (fresh_buffer[0 := 0x55])
      (advance 1 (stream_of (0x55 # header B2H 0x7374 0 @ uint32_bytes (crc32_le 0xFFFFFFFF [])))) 0
     = Some (invalid, 0,
         header B2H 0x7374 0 @ uint32_bytes (crc32_le 0xFFFFFFFF [])
           @ drop 12 (fresh_buffer[0 := 0x55]),
         advance 13 (stream_of (0x55 # header B2H 0x7374 0 @ uint32_bytes (crc32_le 0xFFFFFFFF []))))"
proof -
  let ?f = "header B2H 0x7374 0 @ uint32_bytes (crc32_le 0xFFFFFFFF [])"
  let ?inp = "stream_of (0x55 # ?f)"
  have a: "ReceiveMessage B2H fresh_buffer ?inp 0
     = Some (invalid, 0, fresh_buffer[0 := 0x55], advance 1 ?inp)"
    by (rule ReceiveMessage_sync_mismatch [where bs = ?f])
       (simp_all add: unread_stream_of sync_def fresh_buffer_def ofs_defs)
  have u: "unread (advance 1 ?inp) = ?f"
    by (simp add: unread_advance unread_stream_of)
  then have u': "unread (advance 1 ?inp)
      = header B2H 0x7374 0 @ [] @ uint32_bytes (crc32_le 0xFFFFFFFF []) @ []"
    by simp
  have l: "length (fresh_buffer[0 := 0x55]) = recv_buffer_size"
    by (simp add: fresh_buffer_def)
  have s: "msg_size B2H (uint (0x7374 :: 16 word)) = int (unat (0 :: 16 word))"
    by (simp add: B2H_size_def MessageType_defs)
  have w: "uint32_at (fresh_buffer[0 := 0x55]) 12 = Some 0"
    by (simp add: uint32_at_def fresh_buffer_def ofs_defs)
  have b: "ReceiveMessage B2H (fresh_buffer[0 := 0x55]) (advance 1 ?inp) 0
     = Some (invalid, 0, ?f @ drop 12 (fresh_buffer[0 := 0x55]), advance 13 ?inp)"
    using ReceiveMessage_frame [OF u' l s, of 0] w
    by (simp add: length_uint32_bytes ofs_defs crc32_le_Nil advance_advance)
  from a u b show ?thesis by simp
qed

text \<open>
  Claim C7.  When the inbound stream delivers a Body-to-Head frame (header, payload of
  the length the size field gives, four trailer bytes) and \<^verbatim>\<open>ReceiveMessage\<close> inside
  \<^verbatim>\<open>ReceiveAndRewriteB2HMessage\<close> returns a type other than the sentinel, the relay
  writes to the outbound stream exactly the bytes of the inbound frame: the same
  payload, the same four trailer bytes, and payload size + header length + 4 bytes in
  all.  No hook changes the payload (\<open>processBody2Head_eq\<close>).
\<close>

theorem relay_pass_through:
  assumes inp: "unread inp = header B2H t s @ payload @ trailer @ rest"
    and lp: "length payload = unat s" and lt: "length trailer = 4"
    and len: "length buf = recv_buffer_size"
    and rcv: "ReceiveMessage B2H buf inp 0 = Some (mt, n, buf1, inp1)"
    and ok: "mt \<noteq> invalid"
  shows "\<exists>buf' Serial'.
      ReceiveAndRewriteB2HMessage buf Serial inp out
        = Some (buf', Serial', inp1, Stream_write (header B2H t s @ payload @ trailer) out)
      \<and> take n (drop payload_ofs (header B2H t s @ payload @ trailer)) = payload
      \<and> drop (payload_ofs + n) (header B2H t s @ payload @ trailer) = trailer
      \<and> length (header B2H t s @ payload @ trailer) = n + payload_ofs + 4"
proof -
  let ?f = "header B2H t s @ payload @ trailer"
  have len8: "8 \<le> length buf" using len by (simp add: ofs_defs)
  have size: "msg_size B2H (uint t) = int (unat s)"
  proof (rule ccontr)
    assume "msg_size B2H (uint t) \<noteq> int (unat s)"
    with inp len8 have "ReceiveMessage B2H buf inp 0
        = Some (invalid, 0, header B2H t s @ drop 8 buf, advance 8 inp)"
      by (rule ReceiveMessage_reject)
    with rcv ok show False by simp
  qed
  have "int (unat s) = - 1 \<or> (0 \<le> int (unat s) \<and> int (unat s) \<le> 768)"
    using B2H_size_range [of "uint t"] unfolding size .
  then have s768: "unat s \<le> 768" by linarith
  note fr = ReceiveMessage_frame [OF inp len size lp lt, of 0]
  have res: "mt = uint t \<and> n = unat s \<and> buf1 = ?f @ drop (payload_ofs + unat s + 4) buf"
  proof (cases "uint32_at buf (payload_ofs + unat s + 4)")
    case None
    with fr rcv show ?thesis by simp
  next
    case (Some c)
    with fr rcv ok show ?thesis by (simp split: if_splits)
  qed
  then have n: "n = unat s" and buf1: "buf1 = ?f @ drop (payload_ofs + n + 4) buf" by simp_all
  have lf: "length ?f = payload_ofs + n + 4"
    using lp lt n by (simp add: length_header ofs_defs)
  have l1: "length buf1 = recv_buffer_size"
    unfolding buf1 using lf len s768 n by (simp add: ofs_defs)
  have tk: "take (n + payload_ofs + 4) buf1 = ?f"
    unfolding buf1 using lf by (simp add: add.commute)
  have n768: "n \<le> 768" using s768 n by simp
  have a: "ReceiveAndRewriteB2HMessage buf Serial inp out
      = Some (take (payload_ofs + n + 4) buf1
                @ uint32_bytes (crc32_le 0xFFFFFFFF (take n (drop payload_ofs buf1)))
                @ drop (payload_ofs + n + 4 + 4) buf1,
              if mt = dataCharacter
              then print_text (take 32 (drop payload_ofs buf1)) 0 Serial else Serial,
              inp1, Stream_write ?f out)"
    using relay_eq [OF rcv l1 n768, of Serial out] unfolding tk .
  have b: "take n (drop payload_ofs ?f) = payload"
    using lp n by (simp add: length_header ofs_defs)
  have c: "drop (payload_ofs + n) ?f = trailer"
    using lp n by (simp add: length_header ofs_defs)
  have d: "length ?f = n + payload_ofs + 4" using lf by simp
  from a b c d show ?thesis by blast
qed

theorem relay_pass_through_witness:
  "ReceiveMessage B2H (buffer_with_word 4 0x66074786)
      (stream_of (header B2H 0x6B61 4 @ [1, 0, 0, 0] @ [0x86, 0x47, 0x07, 0x66])) 0
     = Some (ack, 4,
         header B2H 0x6B61 4 @ [1, 0, 0, 0] @ [0x86, 0x47, 0x07, 0x66]
           @ drop 16 (buffer_with_word 4 0x66074786),
         advance 16 (stream_of (header B2H 0x6B61 4 @ [1, 0, 0, 0] @ [0x86, 0x47, 0x07, 0x66])))
   \<and> (\<exists>buf' Serial'.
        ReceiveAndRewriteB2HMessage (buffer_with_word 4 0x66074786) (stream_of [])
            (stream_of (header B2H 0x6B61 4 @ [1, 0, 0, 0] @ [0x86, 0x47, 0x07, 0x66]))
            (stream_of [])
          = Some (buf', Serial',
              advance 16 (stream_of (header B2H 0x6B61 4 @ [1, 0, 0, 0] @ [0x86, 0x47, 0x07, 0x66])),
              stream_of (header B2H 0x6B61 4 @ [1, 0, 0, 0] @ [0x86, 0x47, 0x07, 0x66])))"
proof -
  let ?buf = "buffer_with_word 4 0x66074786"
  let ?inp = "stream_of (header B2H 0x6B61 4 @ [1, 0, 0, 0] @ [0x86, 0x47, 0x07, 0x66])"
  have u: "unread ?inp = header B2H 0x6B61 4 @ [1, 0, 0, 0] @ [0x86, 0x47, 0x07, 0x66] @ []"
    by (simp add: unread_stream_of)
  have lp: "length [1, 0, 0, 0 :: byte] = unat (4 :: 16 word)" by simp
  have lt: "length [0x86, 0x47, 0x07, 0x66 :: byte] = 4" by simp
  have l: "length ?buf = recv_buffer_size"
    by (rule length_buffer_with_word) (simp add: ofs_defs)
  have w: "uint32_at ?buf (payload_ofs + 4 + 4) = Some 0x66074786"
    by (rule uint32_at_buffer_with_word) (simp add: ofs_defs)
  have s: "msg_size B2H (uint (0x6B61 :: 16 word)) = int (unat (4 :: 16 word))"
    by (simp add: B2H_size_def MessageType_defs)
  have r: "ReceiveMessage B2H ?buf ?inp 0
     = Some (ack, 4,
         header B2H 0x6B61 4 @ [1, 0, 0, 0] @ [0x86, 0x47, 0x07, 0x66] @ drop 16 ?buf,
         advance 16 ?inp)"
    using ReceiveMessage_frame [OF u l s lp lt, of 0] w
    by (simp add: ofs_defs crc_ack_one ack_def)
  have ok: "ack \<noteq> invalid" by (simp add: MessageType_defs)
  from relay_pass_through [OF u lp lt l r ok, of "stream_of []" "stream_of []"] r
  show ?thesis by (simp add: Stream_write_def stream_of_def)
qed

section \<open>The claims about encoding\<close>

text \<open>
  Claim C8 says that \<^verbatim>\<open>DataCharacterMsg("Hi", 2)\<close> leaves the payload 'H', 'i' and 30
  zero bytes.  Only the text and one zero byte are written; the other 29 bytes of the
  payload are what the buffer held.  After \<^verbatim>\<open>DataCharacterMsg("Hello", 5)\<close> on the
  zero-initialised buffer, \<^verbatim>\<open>DataCharacterMsg("Hi", 2)\<close> leaves the payload
  'H', 'i', 0, 'l', 'o' and 27 zero bytes.
\<close>

theorem DataCharacterMsg_Hi_after_Hello:
  "DataCharacterMsg B2H fresh_buffer Hello 5 = Some (32, buffer_after_Hello)
   \<and> payload_of (DataCharacterMsg B2H buffer_after_Hello Hi 2)
       = Some ([0x48, 0x69, 0, 0x6C, 0x6F] @ replicate 27 0)
   \<and> payload_of (DataCharacterMsg B2H buffer_after_Hello Hi 2)
       \<noteq> Some ([0x48, 0x69] @ replicate 30 0)"
proof -
  have "drop (payload_ofs + 3) buffer_after_Hello
      = [0x6C, 0x6F] @ replicate 27 0 @ replicate 4 0
       @ uint32_bytes (crc32_le 0xFFFFFFFF (take 5 Hello @ replicate 27 0))
       @ replicate 992 0"
    by (simp add: buffer_after_Hello_def header_def uint16_bytes_def Hello_def ofs_defs)
  then have "take 29 (drop (payload_ofs + 3) buffer_after_Hello) = [0x6C, 0x6F] @ replicate 27 0"
    by simp
  then have p: "payload_of (DataCharacterMsg B2H buffer_after_Hello Hi 2)
       = Some ([0x48, 0x69, 0, 0x6C, 0x6F] @ replicate 27 0)"
    unfolding payload_Hi [OF length_buffer_after_Hello] by simp
  have "([0x48, 0x69, 0, 0x6C, 0x6F] @ replicate 27 0) ! 3 \<noteq> (([0x48, 0x69] @ replicate 30 0) ! 3 :: byte)"
    by simp
  then have n: "[0x48, 0x69, 0, 0x6C, 0x6F] @ replicate 27 0 \<noteq> [0x48, 0x69] @ replicate 30 (0::byte)"
    by metis
  from DataCharacterMsg_Hello p n show ?thesis by simp
qed

text \<open>
  Claim C8, amended.  \<^verbatim>\<open>DataCharacterMsg("Hi", 2)\<close> returns the payload size 32 and
  leaves a 32-byte payload that starts with 'H', 'i', 0 and keeps in its other 29
  bytes what the buffer held before the call (so the payload is 'H', 'i' and 30 zero
  bytes when these were zero, as in the zero-initialised buffer); the CRC32 (reflected,
  register starting at 0xFFFFFFFF, no final XOR) that the call stores in the buffer is
  computed over all 32 payload bytes, not over the copied text only.
\<close>

theorem DataCharacterMsg_Hi:
  assumes "length buf = recv_buffer_size"
  shows "\<exists>buf'. DataCharacterMsg d buf Hi 2 = Some (32, buf')
     \<and> take 32 (drop payload_ofs buf') = [0x48, 0x69, 0] @ take 29 (drop (payload_ofs + 3) buf)
     \<and> (\<exists>k. uint32_at buf' k = Some (crc32_le 0xFFFFFFFF (take 32 (drop payload_ofs buf'))))"
proof -
  define pay where "pay = [0x48, 0x69, 0] @ take 29 (drop (payload_ofs + 3) buf)"
  define pre where "pre = header d 0x6364 32 @ pay @ take 4 (drop (payload_ofs + 32) buf)"
  define buf' where
    "buf' = pre @ uint32_bytes (crc32_le 0xFFFFFFFF pay) @ drop (payload_ofs + 32 + 4 + 4) buf"
  have e: "DataCharacterMsg d buf Hi 2 = Some (32, buf')"
    unfolding buf'_def pre_def pay_def by (rule DataCharacterMsg_Hi_eq [OF assms])
  have lh: "length (header d 0x6364 32) = payload_ofs"
    by (simp add: length_header ofs_defs)
  have lp: "length pay = 32"
    unfolding pay_def using assms by (simp add: ofs_defs)
  have eq: "buf' = header d 0x6364 32 @ pay @ (take 4 (drop (payload_ofs + 32) buf)
      @ uint32_bytes (crc32_le 0xFFFFFFFF pay) @ drop (payload_ofs + 32 + 4 + 4) buf)"
    unfolding buf'_def pre_def by simp
  have p: "take 32 (drop payload_ofs buf') = pay"
    unfolding eq by (rule payload_prefix [OF lh lp])
  have c: "uint32_at buf' (length pre) = Some (crc32_le 0xFFFFFFFF pay)"
    unfolding buf'_def by (rule uint32_at_bytes) (rule refl)
  show ?thesis
  proof (intro exI conjI)
    show "DataCharacterMsg d buf Hi 2 = Some (32, buf')" by (rule e)
    show "take 32 (drop payload_ofs buf') = [0x48, 0x69, 0] @ take 29 (drop (payload_ofs + 3) buf)"
      using p unfolding pay_def .
    show "uint32_at buf' (length pre) = Some (crc32_le 0xFFFFFFFF (take 32 (drop payload_ofs buf')))"
      unfolding p by (rule c)
  qed
qed

theorem DataCharacterMsg_Hi_witness:
  "length fresh_buffer = recv_buffer_size
   \<and> (\<exists>buf'. DataCharacterMsg B2H fresh_buffer Hi 2 = Some (32, buf')
        \<and> take 32 (drop payload_ofs buf') = [0x48, 0x69] @ replicate 30 0
        \<and> (\<exists>k. uint32_at buf' k = Some (crc32_le 0xFFFFFFFF (take 32 (drop payload_ofs buf')))))"
proof -
  have "replicate (Suc 29) (0::byte) = 0 # replicate 29 0" by (rule replicate_Suc)
  then have r: "replicate 30 (0::byte) = 0 # replicate 29 0" by simp
  have z: "[0x48, 0x69, 0] @ take 29 (drop (payload_ofs + 3) fresh_buffer)
      = [0x48, 0x69] @ replicate 30 0"
    by (simp add: fresh_buffer_def ofs_defs r)
  show ?thesis
    using DataCharacterMsg_Hi [OF length_fresh_buffer, of B2H] length_fresh_buffer
    unfolding z by (rule conjI [rotated])
qed

text \<open>
  Claim C9.  For a type that the direction's table does not list, \<^verbatim>\<open>populateHeader\<close>
  does not fail: it writes the sync byte, the direction's tag, the low 16 bits of the
  type, and 0xFFFF, the sentinel -1 wrapped to 16 bits, into the size field; it returns
  -1 converted to \<^verbatim>\<open>size_t\<close>.  The buffer the caller passes has at least the eight
  header bytes.
\<close>

theorem populateHeader_unknown_type:
  assumes "msg_size d message_type = - 1" and "8 \<le> length buf"
  shows "populateHeader d buf message_type
           = Some (4294967295, header d (word_of_int message_type) 0xFFFF @ drop 8 buf)"
proof -
  have sz: "int_to_size_t (- 1) = 4294967295"
    by (simp add: int_to_size_t_def)
  have ff: "(word_of_nat 4294967295 :: 16 word) = 0xFFFF"
    by simp
  show ?thesis
    using populateHeader_eq [OF assms(2), of d message_type]
    unfolding assms(1) sz ff .
qed

theorem populateHeader_unknown_type_witness:
  "msg_size B2H VS = - 1 \<and> 8 \<le> length (replicate 12 (0::byte))
   \<and> populateHeader B2H (replicate 12 0) VS
       = Some (4294967295, [0xAA, 0x42, 0x32, 0x48, 0x76, 0x73, 0xFF, 0xFF, 0, 0, 0, 0])"
proof -
  have a: "msg_size B2H VS = - 1" by (simp add: B2H_size_def MessageType_defs)
  have l: "8 \<le> length (replicate 12 (0::byte))" by simp
  have r: "replicate 12 (0::byte) = [0,0,0,0,0,0,0,0,0,0,0,0]" by (simp add: eval_nat_numeral)
  show ?thesis
    using a l populateHeader_unknown_type [OF a l]
    by (simp add: header_def uint16_bytes_def sync_def VS_def r)
qed

text \<open>
  Claim C10.  For every value of \<^verbatim>\<open>MessageType\<close>, \<^verbatim>\<open>processBody2Head\<close> returns
  false and leaves every byte of the Body-to-Head buffer as it was.  The one effect of a
  hook is that of \<^verbatim>\<open>process(DataCharacter&)\<close>, which prints the text to \<^verbatim>\<open>Serial\<close>.
\<close>

theorem processBody2Head_not_modified:
  assumes "length recv_buffer = recv_buffer_size"
  shows "processBody2Head msg_type recv_buffer Serial =
    Some (False, recv_buffer,
          if msg_type = dataCharacter
          then print_text (take 32 (drop payload_ofs recv_buffer)) 0 Serial else Serial)"
  using assms by (rule processBody2Head_eq)

theorem processBody2Head_not_modified_witness:
  "length fresh_buffer = recv_buffer_size
   \<and> processBody2Head dataCharacter fresh_buffer (stream_of []) =
       Some (False, fresh_buffer, stream_of [])"
proof -
  have l: "length fresh_buffer = recv_buffer_size" by (simp add: fresh_buffer_def)
  have t: "take 32 (drop payload_ofs fresh_buffer) = replicate 32 0"
    by (simp add: fresh_buffer_def ofs_defs)
  have p: "print_text (replicate 32 0) 0 (stream_of []) = stream_of []"
    by (subst print_text.simps) simp
  show ?thesis
    using l processBody2Head_not_modified [OF l, of dataCharacter "stream_of []"]
    by (simp add: t p)
qed

end
